theory Spec2Isabelle
  imports Complex_Main "HOL-Library.Char_ord" "HOL-Library.List_Lexorder" "HOL-Library.Multiset"
begin

section \<open>The healthy-diet cost dashboard (app.py)\<close>

text \<open>
  The script app.py is one straight-line pass: load the table, read the four sidebar
  selections, build the filtered table, compute the key figures, the six chart tables,
  the CSV download and the insight block. The pass is embedded as functions over a list
  of rows. The data-frame operations the script calls (isin, between, boolean-mask
  selection, unique, mean, groupby(...).mean(), idxmax, idxmin, sort_values, head,
  value_counts, to_csv, read_csv) are embedded after their documented behaviour in
  pandas; each definition names the call it stands for.

  Conventions of the embedding:
  \<^item> a text cell is a \<open>string\<close>, that is the byte sequence of its UTF-8 encoding;
    the order on strings is the lexicographic order on bytes, which for UTF-8 is the
    order of Python's \<open>str\<close> by code points;
  \<^item> a float64 cell is an exact rational number: rounding is not part of the
    embedding, and the float NaN is the value \<open>None\<close> of an option type;
  \<^item> no cell of the loaded table is missing (the record type has no null);
  \<^item> an exception of the script is the left injection of a sum type.
\<close>

subsection \<open>Rows, the table and the selection\<close>

record row =
  region :: string
  country :: string
  year :: int
  cost_category :: string
  cost_healthy_diet_ppp_usd :: rat
  annual_cost_healthy_diet_usd :: rat

type_synonym dataframe = "row list"

text \<open>A series with an index: the labels paired with the values, in series order.\<close>

type_synonym ('k, 'v) series = "('k \<times> 'v) list"

datatype error = ValueError | IndexError | StreamlitAPIException

record selection =
  selected_regions :: "string list"
  selected_countries :: "string list"
  selected_years :: "int \<times> int"
  selected_category :: "string list"

subsection \<open>Column operations\<close>

text \<open>\<open>s.isin(values)\<close>: one truth value per cell.\<close>

definition isin :: "'a list \<Rightarrow> 'a list \<Rightarrow> bool list" where
  "isin col vals = map (\<lambda>v. v \<in> set vals) col"

text \<open>\<open>s.between(left, right)\<close>, both ends included.\<close>

definition between :: "int list \<Rightarrow> int \<Rightarrow> int \<Rightarrow> bool list" where
  "between col left right = map (\<lambda>v. left \<le> v \<and> v \<le> right) col"

text \<open>\<open>a & b\<close> on two truth-value series of one length.\<close>

definition mask_and :: "bool list \<Rightarrow> bool list \<Rightarrow> bool list" where
  "mask_and a b = map (\<lambda>(x, y). x \<and> y) (zip a b)"

text \<open>\<open>df[mask]\<close>: the rows whose truth value is set, in table order.\<close>

fun select_rows :: "'a list \<Rightarrow> bool list \<Rightarrow> 'a list" where
  "select_rows (r # rs) (b # bs) = (if b then r # select_rows rs bs else select_rows rs bs)"
| "select_rows _ _ = []"

text \<open>\<open>s.unique()\<close>: the distinct values in order of first appearance.\<close>

fun unique :: "'a list \<Rightarrow> 'a list" where
  "unique [] = []"
| "unique (x # xs) = x # unique (filter (\<lambda>y. y \<noteq> x) xs)"

text \<open>
  \<open>s.mean()\<close>: the arithmetic mean. On an empty series pandas returns NaN and raises
  nothing.
\<close>

definition average :: "rat list \<Rightarrow> rat" where
  "average xs = sum_list xs / of_nat (length xs)"

definition mean :: "rat list \<Rightarrow> rat option" where
  "mean xs = (if xs = [] then None else Some (average xs))"

text \<open>\<open>s.min()\<close> and \<open>s.max()\<close> of an integer column: NaN on an empty column.\<close>

definition col_min :: "int list \<Rightarrow> int option" where
  "col_min xs = (case xs of [] \<Rightarrow> None | x # ys \<Rightarrow> Some (fold min ys x))"

definition col_max :: "int list \<Rightarrow> int option" where
  "col_max xs = (case xs of [] \<Rightarrow> None | x # ys \<Rightarrow> Some (fold max ys x))"

text \<open>\<open>int(x)\<close>: raises ValueError on NaN.\<close>

definition to_int :: "int option \<Rightarrow> error + int" where
  "to_int x = (case x of None \<Rightarrow> Inl ValueError | Some v \<Rightarrow> Inr v)"

text \<open>
  \<open>df.groupby(key)[col].mean()\<close>: one entry per distinct key of the table, the keys in
  ascending order (groupby sorts its keys), each with the mean of the column over the
  rows of that key. Every group has at least one row, so no group mean is NaN.
\<close>

definition groupby_mean :: "(row \<Rightarrow> 'k::linorder) \<Rightarrow> (row \<Rightarrow> rat) \<Rightarrow> dataframe \<Rightarrow> ('k, rat) series" where
  "groupby_mean key col df =
     map (\<lambda>k. (k, average (map col (filter (\<lambda>r. key r = k) df))))
       (sort (unique (map key df)))"

text \<open>
  \<open>s.idxmax()\<close> and \<open>s.idxmin()\<close>: the label of the first occurrence of the extreme
  value; ValueError on an empty series. The scan keeps the entry found so far and
  replaces it only by a strictly better one.
\<close>

fun scan_max :: "'k \<times> ('v::linorder) \<Rightarrow> ('k, 'v) series \<Rightarrow> 'k \<times> 'v" where
  "scan_max best [] = best"
| "scan_max best (x # xs) = scan_max (if snd best < snd x then x else best) xs"

fun scan_min :: "'k \<times> ('v::linorder) \<Rightarrow> ('k, 'v) series \<Rightarrow> 'k \<times> 'v" where
  "scan_min best [] = best"
| "scan_min best (x # xs) = scan_min (if snd x < snd best then x else best) xs"

definition idxmax :: "('k, 'v::linorder) series \<Rightarrow> error + 'k" where
  "idxmax s = (case s of [] \<Rightarrow> Inl ValueError | x # xs \<Rightarrow> Inr (fst (scan_max x xs)))"

definition idxmin :: "('k, 'v::linorder) series \<Rightarrow> error + 'k" where
  "idxmin s = (case s of [] \<Rightarrow> Inl ValueError | x # xs \<Rightarrow> Inr (fst (scan_min x xs)))"

text \<open>
  \<open>s.sort_values(ascending=...)\<close>: the entries ordered by value. Ascending, entries of
  equal value keep their series order. Descending, pandas reverses the series, sorts it
  ascending and reverses the result, so entries of equal value keep their series order
  as well. (The order among equal values is fixed here as that of a stable sort; the
  numpy sort behind the call promises no order among equal values.)
\<close>

definition sort_values :: "bool \<Rightarrow> ('k, 'v::linorder) series \<Rightarrow> ('k, 'v) series" where
  "sort_values ascending s =
     (if ascending then sort_key snd s else rev (sort_key snd (rev s)))"

text \<open>\<open>s.head(n)\<close>: the first n entries, all of them when there are fewer.\<close>

definition head :: "nat \<Rightarrow> 'a list \<Rightarrow> 'a list" where
  "head n s = take n s"

text \<open>
  \<open>s.value_counts()\<close>: one entry per distinct value, with the number of its
  occurrences, ordered by descending count.
\<close>

definition value_counts :: "'a list \<Rightarrow> ('a, nat) series" where
  "value_counts col =
     sort_values False (map (\<lambda>v. (v, count_list col v)) (unique col))"

subsection \<open>The filter step (lines 54 to 59)\<close>

definition apply_filters :: "dataframe \<Rightarrow> selection \<Rightarrow> dataframe" where
  "apply_filters df sel =
     select_rows df
       (mask_and
         (mask_and
           (mask_and (isin (map region df) (selected_regions sel))
                     (isin (map country df) (selected_countries sel)))
           (between (map year df) (fst (selected_years sel)) (snd (selected_years sel))))
         (isin (map cost_category df) (selected_category sel)))"

text \<open>The condition a row has to meet, as the specification words it.\<close>

definition row_selected :: "selection \<Rightarrow> row \<Rightarrow> bool" where
  "row_selected sel r \<longleftrightarrow>
     region r \<in> set (selected_regions sel) \<and>
     country r \<in> set (selected_countries sel) \<and>
     fst (selected_years sel) \<le> year r \<and> year r \<le> snd (selected_years sel) \<and>
     cost_category r \<in> set (selected_category sel)"

subsection \<open>The sidebar defaults (lines 22 to 51)\<close>

text \<open>
  Each widget offers the distinct values of a column and starts with all of them
  selected; the country widget offers the countries of the rows whose region is
  selected; the slider starts at the least and the greatest year of the table. The
  bounds are computed with \<open>int(df["year"].min())\<close>, which raises on an empty table.
\<close>

text \<open>
  \<open>st.sidebar.slider(label, min_value, max_value, value)\<close> with integer bounds and a
  pair as value. The widget refuses a value whose start lies after its end, bounds with
  \<open>min_value\<close> not below \<open>max_value\<close>, and a bound outside the integers that
  JavaScript holds exactly (at most \<open>2^53 - 1\<close> in absolute value); each refusal is a
  StreamlitAPIException. Otherwise the first pass returns the value it was given.
\<close>

definition js_safe :: "int \<Rightarrow> bool" where
  "js_safe v \<longleftrightarrow> - (2 ^ 53 - 1) \<le> v \<and> v \<le> 2 ^ 53 - 1"

definition slider :: "int \<Rightarrow> int \<Rightarrow> int \<times> int \<Rightarrow> error + int \<times> int" where
  "slider min_value max_value val =
     (if snd val < fst val then Inl StreamlitAPIException
      else if max_value \<le> min_value then Inl StreamlitAPIException
      else if \<not> js_safe min_value \<or> \<not> js_safe max_value then Inl StreamlitAPIException
      else Inr val)"

definition region_options :: "dataframe \<Rightarrow> string list" where
  "region_options df = unique (map region df)"

definition df_region :: "dataframe \<Rightarrow> string list \<Rightarrow> dataframe" where
  "df_region df regions = select_rows df (isin (map region df) regions)"

definition country_options :: "dataframe \<Rightarrow> string list \<Rightarrow> string list" where
  "country_options df regions = unique (map country (df_region df regions))"

definition year_bounds :: "dataframe \<Rightarrow> error + int \<times> int" where
  "year_bounds df =
     (case to_int (col_min (map year df)) of
        Inl e \<Rightarrow> Inl e
      | Inr year_min \<Rightarrow>
          (case to_int (col_max (map year df)) of
             Inl e \<Rightarrow> Inl e
           | Inr year_max \<Rightarrow> Inr (year_min, year_max)))"

definition category_options :: "dataframe \<Rightarrow> string list" where
  "category_options df = unique (map cost_category df)"

definition default_selection :: "dataframe \<Rightarrow> error + selection" where
  "default_selection df =
     (case year_bounds df of
        Inl e \<Rightarrow> Inl e
      | Inr (year_min, year_max) \<Rightarrow>
          (case slider year_min year_max (year_min, year_max) of
             Inl e \<Rightarrow> Inl e
           | Inr years \<Rightarrow>
               Inr \<lparr>selected_regions = region_options df,
                    selected_countries = country_options df (region_options df),
                    selected_years = years,
                    selected_category = category_options df\<rparr>))"

text \<open>The filtered table under the default selection, when the defaults exist.\<close>

definition default_view :: "dataframe \<Rightarrow> error + dataframe" where
  "default_view df =
     (case default_selection df of
        Inl e \<Rightarrow> Inl e
      | Inr sel \<Rightarrow> Inr (apply_filters df sel))"

subsection \<open>Key figures and chart tables (lines 66 to 116)\<close>

definition avg_daily_cost :: "dataframe \<Rightarrow> rat option" where
  "avg_daily_cost filtered_df = mean (map cost_healthy_diet_ppp_usd filtered_df)"

definition avg_annual_cost :: "dataframe \<Rightarrow> rat option" where
  "avg_annual_cost filtered_df = mean (map annual_cost_healthy_diet_usd filtered_df)"

definition country_avg_cost :: "dataframe \<Rightarrow> (string, rat) series" where
  "country_avg_cost filtered_df = groupby_mean country cost_healthy_diet_ppp_usd filtered_df"

definition highest_cost_country :: "dataframe \<Rightarrow> error + string" where
  "highest_cost_country filtered_df = idxmax (country_avg_cost filtered_df)"

definition lowest_cost_country :: "dataframe \<Rightarrow> error + string" where
  "lowest_cost_country filtered_df = idxmin (country_avg_cost filtered_df)"

text \<open>
  \<open>reset_index()\<close> turns the grouped series into a two-column table with the same
  rows in the same order; a list of pairs stands for both.
\<close>

definition yearly_avg :: "dataframe \<Rightarrow> (int, rat) series" where
  "yearly_avg filtered_df = groupby_mean year cost_healthy_diet_ppp_usd filtered_df"

definition region_avg :: "dataframe \<Rightarrow> (string, rat) series" where
  "region_avg filtered_df = groupby_mean region cost_healthy_diet_ppp_usd filtered_df"

definition top10 :: "dataframe \<Rightarrow> (string, rat) series" where
  "top10 filtered_df = head 10 (sort_values False (country_avg_cost filtered_df))"

definition bottom10 :: "dataframe \<Rightarrow> (string, rat) series" where
  "bottom10 filtered_df = head 10 (sort_values True (country_avg_cost filtered_df))"

definition cat_data :: "dataframe \<Rightarrow> (string, nat) series" where
  "cat_data filtered_df = value_counts (map cost_category filtered_df)"

text \<open>The box plot receives the filtered rows themselves, region against daily cost.\<close>

definition box_data :: "dataframe \<Rightarrow> (string, rat) series" where
  "box_data filtered_df = map (\<lambda>r. (region r, cost_healthy_diet_ppp_usd r)) filtered_df"

subsection \<open>The insight block (lines 135 to 144)\<close>

text \<open>\<open>t.iloc[i]\<close>: a negative position counts from the end; IndexError out of range.\<close>

definition iloc :: "'a list \<Rightarrow> int \<Rightarrow> error + 'a" where
  "iloc t i =
     (if 0 \<le> i \<and> i < int (length t) then Inr (t ! nat i)
      else if i < 0 \<and> - int (length t) \<le> i then Inr (t ! nat (int (length t) + i))
      else Inl IndexError)"

definition cost_change :: "(int, rat) series \<Rightarrow> error + rat" where
  "cost_change yearly =
     (case iloc yearly (- 1) of
        Inl e \<Rightarrow> Inl e
      | Inr last_row \<Rightarrow>
          (case iloc yearly 0 of
             Inl e \<Rightarrow> Inl e
           | Inr first_row \<Rightarrow> Inr (snd last_row - snd first_row)))"

definition highest_region :: "(string, rat) series \<Rightarrow> error + string" where
  "highest_region regional =
     (case iloc (sort_values False regional) 0 of
        Inl e \<Rightarrow> Inl e
      | Inr top_row \<Rightarrow> Inr (fst top_row))"

text \<open>
  The four sentences of the block, each with the values it prints. The block is
  written only when both the yearly and the regional table have a row.
\<close>

datatype insight =
    Cost_changed rat int int
  | Most_expensive_region string
  | Country_extremes string string
  | Average_spend "rat option" "rat option"

definition insights ::
  "(int, rat) series \<Rightarrow> (string, rat) series \<Rightarrow> int \<times> int \<Rightarrow> string \<Rightarrow> string \<Rightarrow>
   rat option \<Rightarrow> rat option \<Rightarrow> error + insight list" where
  "insights yearly regional years highest lowest daily annual =
     (if yearly \<noteq> [] \<and> regional \<noteq> [] then
        (case cost_change yearly of
           Inl e \<Rightarrow> Inl e
         | Inr change \<Rightarrow>
             (case highest_region regional of
                Inl e \<Rightarrow> Inl e
              | Inr hr \<Rightarrow>
                  Inr [Cost_changed change (fst years) (snd years),
                       Most_expensive_region hr,
                       Country_extremes highest lowest,
                       Average_spend daily annual]))
      else Inr [])"

subsection \<open>The CSV download (lines 124 to 130)\<close>

text \<open>
  \<open>to_csv(index=False)\<close> writes the header line and one line per row with the csv
  writer's default dialect: fields separated by a comma, lines ended by a line feed, a
  field put in double quotes when it holds a comma, a double quote, a line feed or a
  carriage return, a double quote inside quotes written twice, and a line whose only
  field is empty written as a pair of quotes. How a number is printed is left to the
  two parameters \<open>int_repr\<close> and \<open>float_repr\<close>. \<open>encode("utf-8")\<close> is the identity
  on byte strings.
\<close>

definition comma :: char where "comma = CHR 0x2C"
definition dquote :: char where "dquote = CHR 0x22"
definition line_feed :: char where "line_feed = CHR 0x0A"
definition carriage_return :: char where "carriage_return = CHR 0x0D"

definition special :: "char \<Rightarrow> bool" where
  "special c \<longleftrightarrow> c = comma \<or> c = dquote \<or> c = line_feed \<or> c = carriage_return"

definition escape_quotes :: "string \<Rightarrow> string" where
  "escape_quotes s = concat (map (\<lambda>c. if c = dquote then [dquote, dquote] else [c]) s)"

definition write_field :: "string \<Rightarrow> string" where
  "write_field s =
     (if list_ex special s then dquote # escape_quotes s @ [dquote] else s)"

fun join_fields :: "string list \<Rightarrow> string" where
  "join_fields [] = []"
| "join_fields [f] = f"
| "join_fields (f # fs) = f @ comma # join_fields fs"

definition write_row :: "string list \<Rightarrow> string" where
  "write_row fs =
     (if fs = [[]] then [dquote, dquote] else join_fields (map write_field fs)) @ [line_feed]"

definition header :: "string list" where
  "header = [''region'', ''country'', ''year'', ''cost_category'',
             ''cost_healthy_diet_ppp_usd'', ''annual_cost_healthy_diet_usd'']"

definition row_cells :: "(int \<Rightarrow> string) \<Rightarrow> (rat \<Rightarrow> string) \<Rightarrow> row \<Rightarrow> string list" where
  "row_cells int_repr float_repr r =
     [region r, country r, int_repr (year r), cost_category r,
      float_repr (cost_healthy_diet_ppp_usd r), float_repr (annual_cost_healthy_diet_usd r)]"

definition to_csv :: "(int \<Rightarrow> string) \<Rightarrow> (rat \<Rightarrow> string) \<Rightarrow> dataframe \<Rightarrow> string" where
  "to_csv int_repr float_repr df =
     write_row header @ concat (map (\<lambda>r. write_row (row_cells int_repr float_repr r)) df)"

record download_button =
  data :: string
  file_name :: string
  mime :: string

definition csv_data :: "(int \<Rightarrow> string) \<Rightarrow> (rat \<Rightarrow> string) \<Rightarrow> dataframe \<Rightarrow> string" where
  "csv_data int_repr float_repr filtered_df = to_csv int_repr float_repr filtered_df"

definition download :: "(int \<Rightarrow> string) \<Rightarrow> (rat \<Rightarrow> string) \<Rightarrow> dataframe \<Rightarrow> download_button" where
  "download int_repr float_repr filtered_df =
     \<lparr>data = csv_data int_repr float_repr filtered_df,
      file_name = ''filtered_healthy_diet_data.csv'',
      mime = ''text/csv''\<rparr>"

text \<open>
  Reading the text back: the tokenizer of \<open>read_csv\<close> with the same dialect, one
  character at a time. It returns the table of cell texts, the header line first;
  empty lines are skipped; text that ends inside a quoted field is refused. Turning
  cell texts into numbers is not part of it.
\<close>

datatype mode = Line_start | Field_start | Unquoted string | Quoted string | Quote_seen string

type_synonym tokenizer = "mode \<times> string list \<times> string list list"

definition end_field :: "string \<Rightarrow> string list \<Rightarrow> string list list \<Rightarrow> char \<Rightarrow> tokenizer" where
  "end_field cur flds rows c =
     (if c = comma then (Field_start, flds @ [cur], rows)
      else (Line_start, [], rows @ [flds @ [cur]]))"

definition newline :: "char \<Rightarrow> bool" where
  "newline c \<longleftrightarrow> c = line_feed \<or> c = carriage_return"

fun tokenize :: "tokenizer \<Rightarrow> char \<Rightarrow> tokenizer" where
  "tokenize (Line_start, flds, rows) c =
     (if newline c then (Line_start, flds, rows)
      else if c = comma then end_field [] flds rows c
      else if c = dquote then (Quoted [], flds, rows)
      else (Unquoted [c], flds, rows))"
| "tokenize (Field_start, flds, rows) c =
     (if newline c \<or> c = comma then end_field [] flds rows c
      else if c = dquote then (Quoted [], flds, rows)
      else (Unquoted [c], flds, rows))"
| "tokenize (Unquoted cur, flds, rows) c =
     (if newline c \<or> c = comma then end_field cur flds rows c
      else (Unquoted (cur @ [c]), flds, rows))"
| "tokenize (Quoted cur, flds, rows) c =
     (if c = dquote then (Quote_seen cur, flds, rows)
      else (Quoted (cur @ [c]), flds, rows))"
| "tokenize (Quote_seen cur, flds, rows) c =
     (if c = dquote then (Quoted (cur @ [dquote]), flds, rows)
      else if newline c \<or> c = comma then end_field cur flds rows c
      else (Unquoted (cur @ [c]), flds, rows))"

fun finish :: "tokenizer \<Rightarrow> string list list option" where
  "finish (Line_start, flds, rows) = Some rows"
| "finish (Field_start, flds, rows) = Some (rows @ [flds @ [[]]])"
| "finish (Unquoted cur, flds, rows) = Some (rows @ [flds @ [cur]])"
| "finish (Quoted cur, flds, rows) = None"
| "finish (Quote_seen cur, flds, rows) = Some (rows @ [flds @ [cur]])"

abbreviation run :: "string \<Rightarrow> tokenizer \<Rightarrow> tokenizer" where
  "run \<equiv> fold (\<lambda>c t. tokenize t c)"

definition read_csv_cells :: "string \<Rightarrow> string list list option" where
  "read_csv_cells text = finish (run text (Line_start, [], []))"

subsection \<open>The whole pass\<close>

text \<open>
  Everything the page shows, in script order. A statement that raises ends the pass:
  nothing after it is computed. The selection is what the four widgets return; the
  slider is built from the year bounds of the table before it returns anything.
\<close>

record page =
  metric_avg_daily :: "rat option"
  metric_avg_annual :: "rat option"
  metric_highest :: string
  metric_lowest :: string
  fig1 :: "(int, rat) series"
  fig2 :: "(string, rat) series"
  fig3 :: "(string, rat) series"
  fig4 :: "(string, rat) series"
  fig5 :: "(string, nat) series"
  fig6 :: "(string, rat) series"
  dataframe_shown :: dataframe
  download_shown :: download_button
  insights_shown :: "insight list"

definition run_script ::
  "(int \<Rightarrow> string) \<Rightarrow> (rat \<Rightarrow> string) \<Rightarrow> dataframe \<Rightarrow> selection \<Rightarrow> error + page" where
  "run_script int_repr float_repr df sel =
     (case year_bounds df of
        Inl e \<Rightarrow> Inl e
      | Inr (year_min, year_max) \<Rightarrow>
          (case slider year_min year_max (year_min, year_max) of
             Inl e \<Rightarrow> Inl e
           | Inr years \<Rightarrow>
          (let filtered_df = apply_filters df sel in
           case highest_cost_country filtered_df of
             Inl e \<Rightarrow> Inl e
           | Inr highest \<Rightarrow>
               (case lowest_cost_country filtered_df of
                  Inl e \<Rightarrow> Inl e
                | Inr lowest \<Rightarrow>
                    (case insights (yearly_avg filtered_df) (region_avg filtered_df)
                            (selected_years sel) highest lowest
                            (avg_daily_cost filtered_df) (avg_annual_cost filtered_df) of
                       Inl e \<Rightarrow> Inl e
                     | Inr sentences \<Rightarrow>
                         Inr \<lparr>metric_avg_daily = avg_daily_cost filtered_df,
                              metric_avg_annual = avg_annual_cost filtered_df,
                              metric_highest = highest,
                              metric_lowest = lowest,
                              fig1 = yearly_avg filtered_df,
                              fig2 = region_avg filtered_df,
                              fig3 = top10 filtered_df,
                              fig4 = bottom10 filtered_df,
                              fig5 = cat_data filtered_df,
                              fig6 = box_data filtered_df,
                              dataframe_shown = filtered_df,
                              download_shown = download int_repr float_repr filtered_df,
                              insights_shown = sentences\<rparr>)))))"

subsection \<open>The example table of the specification\<close>

definition india :: row where
  "india = \<lparr>region = ''Asia'', country = ''India'', year = 2020, cost_category = ''Low'',
            cost_healthy_diet_ppp_usd = 5 / 2, annual_cost_healthy_diet_usd = 912\<rparr>"

definition japan :: row where
  "japan = \<lparr>region = ''Asia'', country = ''Japan'', year = 2020, cost_category = ''High'',
            cost_healthy_diet_ppp_usd = 8, annual_cost_healthy_diet_usd = 2920\<rparr>"

definition france :: row where
  "france = \<lparr>region = ''Europe'', country = ''France'', year = 2021, cost_category = ''High'',
             cost_healthy_diet_ppp_usd = 9, annual_cost_healthy_diet_usd = 3285\<rparr>"

definition example_df :: dataframe where
  "example_df = [india, japan, france]"

definition example_selection :: selection where
  "example_selection =
     \<lparr>selected_regions = [''Asia''], selected_countries = [''India'', ''Japan''],
      selected_years = (2020, 2020), selected_category = [''Low'', ''High'']\<rparr>"

text \<open>
  Every region deselected: the country widget then has nothing to offer, so no country
  is selected either.
\<close>

definition no_region_selection :: selection where
  "no_region_selection =
     \<lparr>selected_regions = [], selected_countries = [],
      selected_years = (2020, 2021), selected_category = [''Low'', ''High'']\<rparr>"

text \<open>Two rows of different countries with the same daily cost.\<close>

definition peru :: row where
  "peru = \<lparr>region = ''Americas'', country = ''Peru'', year = 2020, cost_category = ''Low'',
           cost_healthy_diet_ppp_usd = 3, annual_cost_healthy_diet_usd = 1095\<rparr>"

definition chad :: row where
  "chad = \<lparr>region = ''Africa'', country = ''Chad'', year = 2021, cost_category = ''Low'',
           cost_healthy_diet_ppp_usd = 3, annual_cost_healthy_diet_usd = 1095\<rparr>"

text \<open>A table whose rows are all of one year, and one with a year beyond \<open>2^53\<close>.\<close>

definition one_year_df :: dataframe where
  "one_year_df = [india, japan]"

definition far_year_df :: dataframe where
  "far_year_df = [india, france\<lparr>year := 2 ^ 53\<rparr>]"

text \<open>Tables with one row per country: eleven and twenty countries.\<close>

definition priced :: "string \<Rightarrow> rat \<Rightarrow> row" where
  "priced name cost =
     \<lparr>region = ''World'', country = name, year = 2020, cost_category = ''Low'',
      cost_healthy_diet_ppp_usd = cost, annual_cost_healthy_diet_usd = 365 * cost\<rparr>"

definition eleven_countries :: dataframe where
  "eleven_countries =
     [priced ''A'' 1, priced ''B'' 2, priced ''C'' 3, priced ''D'' 4, priced ''E'' 5,
      priced ''F'' 6, priced ''G'' 7, priced ''H'' 8, priced ''I'' 9, priced ''J'' 10,
      priced ''K'' 11]"

definition twenty_countries :: dataframe where
  "twenty_countries =
     [priced ''A'' 1, priced ''B'' 2, priced ''C'' 3, priced ''D'' 4, priced ''E'' 5,
      priced ''F'' 6, priced ''G'' 7, priced ''H'' 8, priced ''I'' 9, priced ''J'' 10,
      priced ''K'' 11, priced ''L'' 12, priced ''M'' 13, priced ''N'' 14, priced ''O'' 15,
      priced ''P'' 16, priced ''Q'' 17, priced ''R'' 18, priced ''S'' 19, priced ''T'' 20]"

text \<open>The same twenty countries, all at one daily cost.\<close>

definition twenty_equal :: dataframe where
  "twenty_equal = map (\<lambda>r. r\<lparr>cost_healthy_diet_ppp_usd := 4\<rparr>) twenty_countries"

subsection \<open>The filter step keeps exactly the selected rows\<close>

lemma select_rows_map: "select_rows df (map p df) = filter p df"
  by (induction df) simp_all

lemma apply_filters_filter: "apply_filters df sel = filter (row_selected sel) df"
proof -
  have "mask_and
         (mask_and
           (mask_and (isin (map region df) (selected_regions sel))
                     (isin (map country df) (selected_countries sel)))
           (between (map year df) (fst (selected_years sel)) (snd (selected_years sel))))
         (isin (map cost_category df) (selected_category sel))
        = map (row_selected sel) df"
    by (induction df)
       (simp_all add: mask_and_def isin_def between_def row_selected_def)
  then show ?thesis
    by (simp add: apply_filters_def select_rows_map)
qed

text \<open>
  Claim C1. For every table and every selection, the filtered table holds exactly the
  rows of the table that meet all four conditions (region selected, country selected,
  year within the inclusive range, category selected), in table order; every row of
  the table that is left out fails at least one of the four.
\<close>

theorem filtered_df_exact:
  "apply_filters df sel = filter (row_selected sel) df \<and>
   set (apply_filters df sel) = {r \<in> set df. row_selected sel r} \<and>
   set df - set (apply_filters df sel) = {r \<in> set df. \<not> row_selected sel r}"
  by (auto simp add: apply_filters_filter)

subsection \<open>Grouping\<close>

lemma set_unique [simp]: "set (unique xs) = set xs"
  by (induction xs rule: unique.induct) auto

lemma distinct_unique [simp]: "distinct (unique xs)"
  by (induction xs rule: unique.induct) auto

lemma groupby_mean_keys: "map fst (groupby_mean key col df) = sort (unique (map key df))"
  by (simp add: groupby_mean_def comp_def)

lemma groupby_mean_strict_sorted: "sorted_wrt (<) (map fst (groupby_mean key col df))"
  by (simp add: groupby_mean_keys strict_sorted_iff)

lemma groupby_mean_key_set: "fst ` set (groupby_mean key col df) = key ` set df"
proof -
  have "set (map fst (groupby_mean key col df)) = key ` set df"
    unfolding groupby_mean_keys by simp
  then show ?thesis by simp
qed

lemma groupby_mean_empty_iff: "groupby_mean key col df = [] \<longleftrightarrow> df = []"
proof -
  have "groupby_mean key col df = [] \<longleftrightarrow> map fst (groupby_mean key col df) = []" by simp
  also have "\<dots> \<longleftrightarrow> set (sort (unique (map key df))) = {}"
    unfolding groupby_mean_keys by (simp only: set_empty)
  also have "\<dots> \<longleftrightarrow> df = []" by simp
  finally show ?thesis .
qed

lemma groupby_mean_values:
  "map snd (groupby_mean key col df) =
     map (\<lambda>k. average (map col (filter (\<lambda>r. key r = k) df))) (map fst (groupby_mean key col df))"
  by (simp add: groupby_mean_def comp_def)

text \<open>
  Claim C10. The regional table has one row per region of the filtered table, with the
  mean daily cost of the region's rows, in strictly ascending order of the region name;
  the yearly table has one row per year, with the mean daily cost of the year's rows, in
  strictly ascending order of the year: grouping sorts its keys.
\<close>

theorem chart_orderings:
  "sorted_wrt (<) (map fst (region_avg filtered_df)) \<and>
   fst ` set (region_avg filtered_df) = region ` set filtered_df \<and>
   map snd (region_avg filtered_df) =
     map (\<lambda>k. average (map cost_healthy_diet_ppp_usd (filter (\<lambda>r. region r = k) filtered_df)))
       (map fst (region_avg filtered_df)) \<and>
   sorted_wrt (<) (map fst (yearly_avg filtered_df)) \<and>
   fst ` set (yearly_avg filtered_df) = year ` set filtered_df \<and>
   map snd (yearly_avg filtered_df) =
     map (\<lambda>k. average (map cost_healthy_diet_ppp_usd (filter (\<lambda>r. year r = k) filtered_df)))
       (map fst (yearly_avg filtered_df))"
  unfolding region_avg_def yearly_avg_def
  using groupby_mean_values[of region cost_healthy_diet_ppp_usd filtered_df]
        groupby_mean_values[of year cost_healthy_diet_ppp_usd filtered_df]
  by (simp only: groupby_mean_strict_sorted groupby_mean_key_set simp_thms)

subsection \<open>The example of the specification\<close>

lemma example_view: "apply_filters example_df example_selection = [india, japan]"
  by (simp add: apply_filters_filter row_selected_def example_df_def example_selection_def
        india_def japan_def france_def)

lemma example_country_avg:
  "country_avg_cost [india, japan] = [(''India'', 5 / 2), (''Japan'', 8)]"
  by (simp add: country_avg_cost_def groupby_mean_def average_def india_def japan_def)

text \<open>
  Claim C8. On the three-row table of the specification with the selection
  regions = {Asia}, countries = {India, Japan}, years = [2020, 2020],
  categories = {Low, High}: the filtered table is the first two rows, the mean daily
  cost is 5.25, the highest-cost country is Japan, the lowest-cost country is India,
  and the top-10 table is [Japan (8.0), India (2.5)].
\<close>

theorem example_scenario:
  "apply_filters example_df example_selection = [india, japan] \<and>
   avg_daily_cost (apply_filters example_df example_selection) = Some (21 / 4) \<and>
   highest_cost_country (apply_filters example_df example_selection) = Inr ''Japan'' \<and>
   lowest_cost_country (apply_filters example_df example_selection) = Inr ''India'' \<and>
   top10 (apply_filters example_df example_selection) = [(''Japan'', 8), (''India'', 5 / 2)]"
  unfolding example_view
  by (simp add: avg_daily_cost_def mean_def average_def highest_cost_country_def
        lowest_cost_country_def idxmax_def idxmin_def top10_def head_def sort_values_def
        example_country_avg)
     (simp add: india_def japan_def)

subsection \<open>An empty filtered table\<close>

lemma year_bounds_example: "year_bounds example_df = Inr (2020, 2021)"
  by (simp add: year_bounds_def example_df_def to_int_def col_min_def col_max_def
        india_def japan_def france_def)

lemma slider_example: "slider 2020 2021 (2020, 2021) = Inr (2020, 2021)"
  by (simp add: slider_def js_safe_def)

text \<open>
  With no row left, the table of country means is empty and \<open>idxmax\<close> on line 70
  raises: the pass ends there at the latest, whatever the table and the selection.
\<close>

lemma run_script_empty_view:
  "apply_filters df sel = [] \<Longrightarrow> \<exists>e. run_script int_repr float_repr df sel = Inl e"
  by (simp add: run_script_def highest_cost_country_def country_avg_cost_def
        groupby_mean_def idxmax_def split: sum.splits prod.splits)

text \<open>
  Claim C2 asks that a selection leaving no row raises nothing and that every output
  turns empty. The script does not do that: on the example table with every region
  deselected the filtered table is empty and the pass ends with ValueError.
\<close>

theorem empty_view_raises:
  "apply_filters example_df no_region_selection = [] \<and>
   run_script int_repr float_repr example_df no_region_selection = Inl ValueError"
  by (simp add: run_script_def year_bounds_example slider_example apply_filters_filter
        row_selected_def no_region_selection_def highest_cost_country_def
        country_avg_cost_def groupby_mean_def idxmax_def)

subsection \<open>The country with the extreme mean\<close>

lemma scan_max_split:
  "\<exists>pre post. b # xs = pre @ scan_max b xs # post \<and>
     (\<forall>e\<in>set pre. snd e < snd (scan_max b xs)) \<and>
     (\<forall>e\<in>set post. snd e \<le> snd (scan_max b xs))"
proof (induction xs arbitrary: b)
  case Nil
  show ?case by (intro exI[of _ "[]"]) simp
next
  case (Cons x xs)
  show ?case
  proof (cases "snd b < snd x")
    case True
    let ?r = "scan_max x xs"
    from Cons.IH[of x] obtain pre post where
      sp: "x # xs = pre @ ?r # post" and lo: "\<forall>e\<in>set pre. snd e < snd ?r"
      and hi: "\<forall>e\<in>set post. snd e \<le> snd ?r" by blast
    have r: "scan_max b (x # xs) = ?r" using True by simp
    have ge: "snd x \<le> snd ?r"
    proof (cases pre)
      case Nil
      with sp have "x # xs = ?r # post" by (simp only: append_Nil)
      then have "snd x = snd ?r" by (metis list.inject)
      then show ?thesis by (metis order_refl)
    next
      case (Cons p ps) with sp lo show ?thesis by auto
    qed
    have "b # x # xs = (b # pre) @ ?r # post" using sp by simp
    moreover have "\<forall>e\<in>set (b # pre). snd e < snd ?r" using lo ge True by auto
    ultimately show ?thesis unfolding r using hi by blast
  next
    case False
    let ?r = "scan_max b xs"
    from Cons.IH[of b] obtain pre post where
      sp: "b # xs = pre @ ?r # post" and lo: "\<forall>e\<in>set pre. snd e < snd ?r"
      and hi: "\<forall>e\<in>set post. snd e \<le> snd ?r" by blast
    have r: "scan_max b (x # xs) = ?r" using False by simp
    show ?thesis
    proof (cases pre)
      case Nil
      with sp have eq: "b # xs = ?r # post" by (simp only: append_Nil)
      have sb: "snd ?r = snd b" using eq by (metis list.inject)
      have "b # x # xs = [] @ ?r # (x # post)" using eq by (metis append_Nil list.inject)
      moreover have "\<forall>e\<in>set (x # post). snd e \<le> snd ?r" using hi False sb by auto
      ultimately show ?thesis unfolding r by (metis empty_iff list.set(1))
    next
      case (Cons p ps)
      with sp have eq: "b # xs = p # (ps @ ?r # post)" by (simp only: append_Cons)
      have pb: "p = b" using eq by (metis list.inject)
      have "b # x # xs = (b # x # ps) @ ?r # post" using eq by (metis append_Cons list.inject)
      moreover have "\<forall>e\<in>set (b # x # ps). snd e < snd ?r"
        using lo Cons pb False by auto
      ultimately show ?thesis unfolding r using hi by blast
    qed
  qed
qed

lemma scan_min_split:
  "\<exists>pre post. b # xs = pre @ scan_min b xs # post \<and>
     (\<forall>e\<in>set pre. snd (scan_min b xs) < snd e) \<and>
     (\<forall>e\<in>set post. snd (scan_min b xs) \<le> snd e)"
proof (induction xs arbitrary: b)
  case Nil
  show ?case by (intro exI[of _ "[]"]) simp
next
  case (Cons x xs)
  show ?case
  proof (cases "snd x < snd b")
    case True
    let ?r = "scan_min x xs"
    from Cons.IH[of x] obtain pre post where
      sp: "x # xs = pre @ ?r # post" and lo: "\<forall>e\<in>set pre. snd ?r < snd e"
      and hi: "\<forall>e\<in>set post. snd ?r \<le> snd e" by blast
    have r: "scan_min b (x # xs) = ?r" using True by simp
    have ge: "snd ?r \<le> snd x"
    proof (cases pre)
      case Nil
      with sp have "x # xs = ?r # post" by (simp only: append_Nil)
      then have "snd x = snd ?r" by (metis list.inject)
      then show ?thesis by (metis order_refl)
    next
      case (Cons p ps) with sp lo show ?thesis by auto
    qed
    have "b # x # xs = (b # pre) @ ?r # post" using sp by simp
    moreover have "\<forall>e\<in>set (b # pre). snd ?r < snd e" using lo ge True by auto
    ultimately show ?thesis unfolding r using hi by blast
  next
    case False
    let ?r = "scan_min b xs"
    from Cons.IH[of b] obtain pre post where
      sp: "b # xs = pre @ ?r # post" and lo: "\<forall>e\<in>set pre. snd ?r < snd e"
      and hi: "\<forall>e\<in>set post. snd ?r \<le> snd e" by blast
    have r: "scan_min b (x # xs) = ?r" using False by simp
    show ?thesis
    proof (cases pre)
      case Nil
      with sp have eq: "b # xs = ?r # post" by (simp only: append_Nil)
      have sb: "snd ?r = snd b" using eq by (metis list.inject)
      have "b # x # xs = [] @ ?r # (x # post)" using eq by (metis append_Nil list.inject)
      moreover have "\<forall>e\<in>set (x # post). snd ?r \<le> snd e" using hi False sb by auto
      ultimately show ?thesis unfolding r by (metis empty_iff list.set(1))
    next
      case (Cons p ps)
      with sp have eq: "b # xs = p # (ps @ ?r # post)" by (simp only: append_Cons)
      have pb: "p = b" using eq by (metis list.inject)
      have "b # x # xs = (b # x # ps) @ ?r # post" using eq by (metis append_Cons list.inject)
      moreover have "\<forall>e\<in>set (b # x # ps). snd ?r < snd e"
        using lo Cons pb False by auto
      ultimately show ?thesis unfolding r using hi by blast
    qed
  qed
qed

lemma first_of_sorted:
  assumes srt: "sorted_wrt (<) (map fst s)" and sp: "s = pre @ (k, v) # post"
    and e: "(c, m) \<in> set post"
  shows "k < c"
  using srt e unfolding sp by (force simp add: sorted_wrt_append)

lemma idxmax_first:
  fixes s :: "('k::linorder, 'v::linorder) series"
  assumes ne: "s \<noteq> []" and srt: "sorted_wrt (<) (map fst s)"
  shows "\<exists>k v. idxmax s = Inr k \<and> (k, v) \<in> set s \<and>
           (\<forall>(c, m)\<in>set s. m \<le> v \<and> (m = v \<longrightarrow> k \<le> c))"
proof -
  from ne obtain x xs where s: "s = x # xs" by (cases s) auto
  obtain k v where kv: "scan_max x xs = (k, v)" by (cases "scan_max x xs")
  from scan_max_split[of x xs] kv obtain pre post where
    sp: "s = pre @ (k, v) # post" and lo: "\<forall>e\<in>set pre. snd e < v"
    and hi: "\<forall>e\<in>set post. snd e \<le> v" unfolding s by fastforce
  have "idxmax s = Inr k" by (simp add: idxmax_def s kv)
  moreover have "(k, v) \<in> set s" by (simp add: sp)
  moreover have "\<forall>(c, m)\<in>set s. m \<le> v \<and> (m = v \<longrightarrow> k \<le> c)"
  proof (clarify, rule conjI)
    fix c m assume "(c, m) \<in> set s"
    then show "m \<le> v" using lo hi unfolding sp by force
  next
    fix c m assume "(c, m) \<in> set s"
    then consider "(c, m) \<in> set pre" | "(c, m) = (k, v)" | "(c, m) \<in> set post"
      unfolding sp by auto
    then show "m = v \<longrightarrow> k \<le> c"
    proof cases
      case 1 then show ?thesis using lo by force
    next
      case 2 then show ?thesis by simp
    next
      case 3 then show ?thesis using first_of_sorted[OF srt sp] by force
    qed
  qed
  ultimately show ?thesis by blast
qed

lemma idxmin_first:
  fixes s :: "('k::linorder, 'v::linorder) series"
  assumes ne: "s \<noteq> []" and srt: "sorted_wrt (<) (map fst s)"
  shows "\<exists>k v. idxmin s = Inr k \<and> (k, v) \<in> set s \<and>
           (\<forall>(c, m)\<in>set s. v \<le> m \<and> (m = v \<longrightarrow> k \<le> c))"
proof -
  from ne obtain x xs where s: "s = x # xs" by (cases s) auto
  obtain k v where kv: "scan_min x xs = (k, v)" by (cases "scan_min x xs")
  from scan_min_split[of x xs] kv obtain pre post where
    sp: "s = pre @ (k, v) # post" and lo: "\<forall>e\<in>set pre. v < snd e"
    and hi: "\<forall>e\<in>set post. v \<le> snd e" unfolding s by fastforce
  have "idxmin s = Inr k" by (simp add: idxmin_def s kv)
  moreover have "(k, v) \<in> set s" by (simp add: sp)
  moreover have "\<forall>(c, m)\<in>set s. v \<le> m \<and> (m = v \<longrightarrow> k \<le> c)"
  proof (clarify, rule conjI)
    fix c m assume "(c, m) \<in> set s"
    then show "v \<le> m" using lo hi unfolding sp by force
  next
    fix c m assume "(c, m) \<in> set s"
    then consider "(c, m) \<in> set pre" | "(c, m) = (k, v)" | "(c, m) \<in> set post"
      unfolding sp by auto
    then show "m = v \<longrightarrow> k \<le> c"
    proof cases
      case 1 then show ?thesis using lo by force
    next
      case 2 then show ?thesis by simp
    next
      case 3 then show ?thesis using first_of_sorted[OF srt sp] by force
    qed
  qed
  ultimately show ?thesis by blast
qed

text \<open>
  Claim C7. On a filtered table with at least one row, the highest-cost and the
  lowest-cost country are determined: each is a country of the table of country means
  whose mean is extreme, and among the countries that share the extreme mean it is the
  first in the order of the grouping, the lexicographically least. Both are values of a
  function of the filtered table, so evaluating them again gives the same countries.
\<close>

theorem extreme_country_tie_break:
  assumes "filtered_df \<noteq> []"
  shows "(\<exists>k v. highest_cost_country filtered_df = Inr k \<and> (k, v) \<in> set (country_avg_cost filtered_df) \<and>
            (\<forall>(c, m)\<in>set (country_avg_cost filtered_df). m \<le> v \<and> (m = v \<longrightarrow> k \<le> c))) \<and>
         (\<exists>k v. lowest_cost_country filtered_df = Inr k \<and> (k, v) \<in> set (country_avg_cost filtered_df) \<and>
            (\<forall>(c, m)\<in>set (country_avg_cost filtered_df). v \<le> m \<and> (m = v \<longrightarrow> k \<le> c)))"
proof -
  have ne: "country_avg_cost filtered_df \<noteq> []"
    using assms by (simp add: country_avg_cost_def groupby_mean_empty_iff)
  have srt: "sorted_wrt (<) (map fst (country_avg_cost filtered_df))"
    by (simp add: country_avg_cost_def groupby_mean_strict_sorted)
  show ?thesis
    unfolding highest_cost_country_def lowest_cost_country_def
    using idxmax_first[OF ne srt] idxmin_first[OF ne srt] by blast
qed


lemma tie_country_avg: "country_avg_cost [peru, chad] = [(''Chad'', 3), (''Peru'', 3)]"
  by (simp add: country_avg_cost_def groupby_mean_def average_def peru_def chad_def)

theorem extreme_country_tie_break_witness:
  "[peru, chad] \<noteq> [] \<and>
   highest_cost_country [peru, chad] = Inr ''Chad'' \<and>
   lowest_cost_country [peru, chad] = Inr ''Chad''"
  using extreme_country_tie_break [of "[peru, chad]"]
  by (auto simp add: tie_country_avg)

subsection \<open>The default selection\<close>

lemma col_min_Min: "xs \<noteq> [] \<Longrightarrow> col_min xs = Some (Min (set xs))"
proof (cases xs)
  case Nil
  assume "xs \<noteq> []" with Nil show ?thesis by simp
next
  case (Cons y ys)
  have "fold min ys y = Min (set (y # ys))" by (rule Min.set_eq_fold[symmetric])
  then show ?thesis using Cons by (simp add: col_min_def)
qed

lemma col_max_Max: "xs \<noteq> [] \<Longrightarrow> col_max xs = Some (Max (set xs))"
proof (cases xs)
  case Nil
  assume "xs \<noteq> []" with Nil show ?thesis by simp
next
  case (Cons y ys)
  have "fold max ys y = Max (set (y # ys))" by (rule Max.set_eq_fold[symmetric])
  then show ?thesis using Cons by (simp add: col_max_def)
qed

lemma year_bounds_value:
  "df \<noteq> [] \<Longrightarrow> year_bounds df = Inr (Min (year ` set df), Max (year ` set df))"
  by (simp add: year_bounds_def to_int_def col_min_Min col_max_Max)

lemma df_region_all: "df_region df (region_options df) = df"
proof -
  have "isin (map region df) (region_options df) = map (\<lambda>r. True) df"
    by (simp add: isin_def region_options_def)
  then have "df_region df (region_options df) = filter (\<lambda>r. True) df"
    unfolding df_region_def by (simp only: select_rows_map)
  then show ?thesis by simp
qed

text \<open>
  Claim C4, as amended. For every table that holds at least two different years, all
  of them at most \<open>2^53 - 1\<close> in absolute value, the default selection (every region,
  every country, every category, and the years from the least to the greatest year of
  the table) exists, and the filtered table under it is the table itself: the same rows
  in the same order.
\<close>

theorem default_selection_keeps_all:
  assumes two: "\<exists>r\<in>set df. \<exists>r'\<in>set df. year r \<noteq> year r'"
    and safe: "\<forall>r\<in>set df. js_safe (year r)"
  shows "\<exists>sel. default_selection df = Inr sel \<and> apply_filters df sel = df \<and>
           default_view df = Inr df"
proof -
  let ?lo = "Min (year ` set df)" and ?hi = "Max (year ` set df)"
  from two have ne: "df \<noteq> []" by auto
  have fin: "finite (year ` set df)" and nemp: "year ` set df \<noteq> {}" using ne by simp_all
  have cover: "\<forall>r\<in>set df. ?lo \<le> year r \<and> year r \<le> ?hi"
    using fin by (simp add: Min_le Max_ge)
  have less: "?lo < ?hi"
  proof -
    from two obtain r r' where r: "r \<in> set df" and r': "r' \<in> set df"
      and diff: "year r \<noteq> year r'" by blast
    from cover r r' have "?lo \<le> year r" "year r \<le> ?hi" "?lo \<le> year r'" "year r' \<le> ?hi"
      by blast+
    with diff show ?thesis by linarith
  qed
  have "?lo \<in> year ` set df" and "?hi \<in> year ` set df"
    by (rule Min_in[OF fin nemp], rule Max_in[OF fin nemp])
  then have "js_safe ?lo" and "js_safe ?hi" using safe by auto
  then have sl: "slider ?lo ?hi (?lo, ?hi) = Inr (?lo, ?hi)"
    using less by (simp add: slider_def)
  let ?sel = "\<lparr>selected_regions = region_options df,
               selected_countries = country_options df (region_options df),
               selected_years = (?lo, ?hi),
               selected_category = category_options df\<rparr>"
  have ds: "default_selection df = Inr ?sel"
    by (simp add: default_selection_def year_bounds_value[OF ne] sl)
  have "\<forall>r\<in>set df. row_selected ?sel r"
    using cover
    by (simp add: row_selected_def region_options_def country_options_def category_options_def
          df_region_all[unfolded region_options_def])
  then have "filter (row_selected ?sel) df = df" by (simp add: filter_id_conv)
  then have af: "apply_filters df ?sel = df" by (simp only: apply_filters_filter)
  show ?thesis using ds af by (simp add: default_view_def)
qed

theorem default_selection_keeps_all_witness:
  "india \<in> set example_df \<and> france \<in> set example_df \<and> year india \<noteq> year france \<and>
   js_safe (year india) \<and> js_safe (year japan) \<and> js_safe (year france) \<and>
   default_view example_df = Inr example_df"
proof -
  have mem: "india \<in> set example_df" "france \<in> set example_df"
    by (simp_all add: example_df_def)
  have diff: "year india \<noteq> year france" by (simp add: india_def france_def)
  have ok: "js_safe (year india)" "js_safe (year japan)" "js_safe (year france)"
    by (simp_all add: india_def japan_def france_def js_safe_def)
  from mem diff have two: "\<exists>r\<in>set example_df. \<exists>r'\<in>set example_df. year r \<noteq> year r'"
    by blast
  from ok have safe: "\<forall>r\<in>set example_df. js_safe (year r)"
    by (simp add: example_df_def)
  from default_selection_keeps_all [OF two safe] mem diff ok show ?thesis by blast
qed

text \<open>
  Claim C4 as it was stated covers every table. On the table without rows the least and
  the greatest year are NaN and \<open>int\<close> raises on line 38; on a table whose rows are
  all of one year the slider on line 39 is given equal bounds and raises. Either way
  there is no default selection and no filtered table.
\<close>

theorem default_view_refused:
  "default_view [] = Inl ValueError \<and> default_view one_year_df = Inl StreamlitAPIException"
  by (simp add: default_view_def default_selection_def year_bounds_def to_int_def col_min_def
        col_max_def slider_def one_year_df_def india_def japan_def)

text \<open>The same happens when a year lies beyond the integers the slider accepts.\<close>

lemma default_view_far_year: "default_view far_year_df = Inl StreamlitAPIException"
  by (simp add: default_view_def default_selection_def year_bounds_def to_int_def col_min_def
        col_max_def slider_def js_safe_def far_year_df_def india_def france_def)

subsection \<open>The insight block\<close>








subsection \<open>The category distribution\<close>

lemma mset_sort_values: "mset (sort_values asc s) = mset s"
  by (simp add: sort_values_def)

lemma counts_total: "sum_list (map (count_list xs) (unique xs)) = length xs"
proof -
  have "sum_list (map (count_list xs) (unique xs)) = sum (count_list xs) (set (unique xs))"
    by (rule sum_list_distinct_conv_sum_set) simp
  also have "\<dots> = length xs" by (simp add: sum_count_set)
  finally show ?thesis .
qed

text \<open>
  Claim C9. The category table has exactly one row per category that occurs in the
  filtered table, each with the number of rows of that category, and its counts add up
  to the number of rows of the filtered table.
\<close>

theorem category_distribution:
  "distinct (map fst (cat_data filtered_df)) \<and>
   set (map fst (cat_data filtered_df)) = set (map cost_category filtered_df) \<and>
   (\<forall>(c, n)\<in>set (cat_data filtered_df). n = count_list (map cost_category filtered_df) c) \<and>
   sum_list (map snd (cat_data filtered_df)) = length filtered_df"
proof -
  let ?col = "map cost_category filtered_df"
  let ?raw = "map (\<lambda>v. (v, count_list ?col v)) (unique ?col)"
  have cd: "cat_data filtered_df = sort_values False ?raw"
    by (simp add: cat_data_def value_counts_def)
  have ms: "mset (cat_data filtered_df) = mset ?raw"
    unfolding cd by (rule mset_sort_values)
  have "map fst ?raw = unique ?col" by (simp add: comp_def)
  then have keys: "mset (map fst (cat_data filtered_df)) = mset (unique ?col)"
    using ms by (metis mset_map)
  have "map snd ?raw = map (count_list ?col) (unique ?col)" by (simp add: comp_def)
  then have vals: "mset (map snd (cat_data filtered_df)) = mset (map (count_list ?col) (unique ?col))"
    using ms by (metis mset_map)
  have "distinct (map fst (cat_data filtered_df))"
    using keys distinct_unique by (metis mset_eq_imp_distinct_iff)
  moreover have "set (map fst (cat_data filtered_df)) = set ?col"
    using keys by (metis mset_eq_setD set_unique)
  moreover have "\<forall>(c, n)\<in>set (cat_data filtered_df). n = count_list ?col c"
    using mset_eq_setD[OF ms] by auto
  moreover have "sum_list (map snd (cat_data filtered_df)) = length filtered_df"
  proof -
    have "sum_list (map snd (cat_data filtered_df)) = sum_mset (mset (map snd (cat_data filtered_df)))"
      by (simp only: sum_mset_sum_list)
    also have "\<dots> = sum_mset (mset (map (count_list ?col) (unique ?col)))"
      by (simp only: vals)
    also have "\<dots> = sum_list (map (count_list ?col) (unique ?col))"
      by (simp only: sum_mset_sum_list)
    also have "\<dots> = length ?col" by (rule counts_total)
    finally show ?thesis by simp
  qed
  ultimately show ?thesis by blast
qed

theorem category_distribution_witness:
  "cat_data example_df = [(''High'', 2), (''Low'', 1)]"
  using category_distribution [of example_df]
  by (simp add: cat_data_def value_counts_def sort_values_def example_df_def
        india_def japan_def france_def)

subsection \<open>The ten most and the ten least expensive countries\<close>

lemma groupby_mean_distinct: "distinct (map fst (groupby_mean key col df))"
  by (simp add: groupby_mean_keys)

lemma groupby_mean_length: "length (groupby_mean key col df) = card (key ` set df)"
proof -
  have "length (groupby_mean key col df) = length (map fst (groupby_mean key col df))" by simp
  also have "\<dots> = length (unique (map key df))" unfolding groupby_mean_keys by simp
  also have "\<dots> = card (set (unique (map key df)))"
    by (rule distinct_card[symmetric]) (rule distinct_unique)
  finally show ?thesis by simp
qed

lemma sort_values_ascending_sorted: "sorted (map snd (sort_values True s))"
  by (simp add: sort_values_def)

lemma sort_values_descending_sorted: "sorted (rev (map snd (sort_values False s)))"
  by (simp add: sort_values_def rev_map)

lemma sort_key_rev_distinct:
  fixes s :: "('k, 'v::linorder) series"
  assumes d: "distinct (map snd s)"
  shows "sort_key snd (rev s) = sort_key snd s"
proof (rule map_sorted_distinct_set_unique[where f = snd])
  have "distinct s" and inj: "inj_on snd (set s)" using d by (simp_all add: distinct_map)
  show "inj_on snd (set (sort_key snd (rev s)) \<union> set (sort_key snd s))" using inj by simp
  show "sorted (map snd (sort_key snd (rev s)))" by simp
  show "sorted (map snd (sort_key snd s))" by simp
  have "mset (map snd (sort_key snd (rev s))) = mset (map snd s)" by simp
  then show "distinct (map snd (sort_key snd (rev s)))" using d
    by (metis mset_eq_imp_distinct_iff)
  have "mset (map snd (sort_key snd s)) = mset (map snd s)" by simp
  then show "distinct (map snd (sort_key snd s))" using d
    by (metis mset_eq_imp_distinct_iff)
  show "set (sort_key snd (rev s)) = set (sort_key snd s)" by simp
qed

lemma head_disjoint:
  fixes s :: "('k, 'v::linorder) series"
  assumes dv: "distinct (map snd s)" and dk: "distinct (map fst s)" and n: "20 \<le> length s"
  shows "set (map fst (head 10 (sort_values False s))) \<inter>
         set (map fst (head 10 (sort_values True s))) = {}"
proof -
  let ?a = "sort_key snd s"
  have len: "length ?a = length s" by simp
  have "mset (map fst ?a) = mset (map fst s)" by simp
  then have da: "distinct (map fst ?a)" using dk by (metis mset_eq_imp_distinct_iff)
  have desc: "sort_values False s = rev ?a"
    by (simp add: sort_values_def sort_key_rev_distinct[OF dv])
  have top: "map fst (head 10 (sort_values False s)) = rev (drop (length s - 10) (map fst ?a))"
    unfolding desc head_def by (simp add: take_rev rev_map drop_map)
  have bot: "map fst (head 10 (sort_values True s)) = take 10 (map fst ?a)"
    by (simp add: sort_values_def head_def take_map)
  have "set (take 10 (map fst ?a)) \<inter> set (drop (length s - 10) (map fst ?a)) = {}"
    using n by (intro set_take_disj_set_drop_if_distinct[OF da]) simp
  then show ?thesis unfolding top bot by auto
qed

text \<open>
  Claim C3, as amended. The top-10 table is the table of country means ordered by
  descending mean and cut to at most ten rows; the bottom-10 table is the same table
  ordered by ascending mean and cut to at most ten rows; every row of either is a row
  of the table of country means; and the two tables share no country whenever the
  filtered table has at least twenty countries and no two countries have the same mean.
\<close>

theorem top_bottom_series:
  "top10 filtered_df = take 10 (sort_values False (country_avg_cost filtered_df)) \<and>
   bottom10 filtered_df = take 10 (sort_values True (country_avg_cost filtered_df)) \<and>
   mset (sort_values False (country_avg_cost filtered_df)) = mset (country_avg_cost filtered_df) \<and>
   mset (sort_values True (country_avg_cost filtered_df)) = mset (country_avg_cost filtered_df) \<and>
   sorted (rev (map snd (sort_values False (country_avg_cost filtered_df)))) \<and>
   sorted (map snd (sort_values True (country_avg_cost filtered_df))) \<and>
   length (top10 filtered_df) \<le> 10 \<and> length (bottom10 filtered_df) \<le> 10 \<and>
   set (top10 filtered_df) \<subseteq> set (country_avg_cost filtered_df) \<and>
   set (bottom10 filtered_df) \<subseteq> set (country_avg_cost filtered_df) \<and>
   (20 \<le> card (country ` set filtered_df) \<and> distinct (map snd (country_avg_cost filtered_df)) \<longrightarrow>
      set (map fst (top10 filtered_df)) \<inter> set (map fst (bottom10 filtered_df)) = {})"
proof -
  let ?cm = "country_avg_cost filtered_df"
  have sub: "\<And>asc. set (take 10 (sort_values asc ?cm)) \<subseteq> set ?cm"
  proof -
    fix asc
    have "set (sort_values asc ?cm) = set ?cm"
      using mset_sort_values[of asc ?cm] by (rule mset_eq_setD)
    then show "set (take 10 (sort_values asc ?cm)) \<subseteq> set ?cm"
      using set_take_subset[of 10 "sort_values asc ?cm"] by simp
  qed
  have disj: "20 \<le> card (country ` set filtered_df) \<and> distinct (map snd ?cm) \<longrightarrow>
      set (map fst (top10 filtered_df)) \<inter> set (map fst (bottom10 filtered_df)) = {}"
  proof
    assume h: "20 \<le> card (country ` set filtered_df) \<and> distinct (map snd ?cm)"
    have "20 \<le> length ?cm" using h by (simp add: country_avg_cost_def groupby_mean_length)
    moreover have "distinct (map fst ?cm)"
      by (simp add: country_avg_cost_def groupby_mean_distinct)
    ultimately show "set (map fst (top10 filtered_df)) \<inter> set (map fst (bottom10 filtered_df)) = {}"
      unfolding top10_def bottom10_def using h by (intro head_disjoint) simp_all
  qed
  show ?thesis
    using sub disj
    by (simp add: top10_def bottom10_def head_def mset_sort_values
          sort_values_ascending_sorted sort_values_descending_sorted)
qed

lemma twenty_country_avg:
  "country_avg_cost twenty_countries =
     [(''A'', 1), (''B'', 2), (''C'', 3), (''D'', 4), (''E'', 5), (''F'', 6), (''G'', 7),
      (''H'', 8), (''I'', 9), (''J'', 10), (''K'', 11), (''L'', 12), (''M'', 13), (''N'', 14),
      (''O'', 15), (''P'', 16), (''Q'', 17), (''R'', 18), (''S'', 19), (''T'', 20)]"
  by (simp add: country_avg_cost_def groupby_mean_def average_def twenty_countries_def priced_def)

theorem top_bottom_series_witness:
  "20 \<le> card (country ` set twenty_countries) \<and>
   distinct (map snd (country_avg_cost twenty_countries)) \<and>
   set (map fst (top10 twenty_countries)) \<inter> set (map fst (bottom10 twenty_countries)) = {}"
proof -
  have "20 \<le> card (country ` set twenty_countries)"
    using groupby_mean_length[of country cost_healthy_diet_ppp_usd twenty_countries]
    by (simp add: country_avg_cost_def[symmetric] twenty_country_avg)
  moreover have "distinct (map snd (country_avg_cost twenty_countries))"
    by (simp add: twenty_country_avg)
  ultimately show ?thesis
    using top_bottom_series [of twenty_countries] by blast
qed

lemma eleven_country_avg:
  "country_avg_cost eleven_countries =
     [(''A'', 1), (''B'', 2), (''C'', 3), (''D'', 4), (''E'', 5), (''F'', 6), (''G'', 7),
      (''H'', 8), (''I'', 9), (''J'', 10), (''K'', 11)]"
  by (simp add: country_avg_cost_def groupby_mean_def average_def eleven_countries_def priced_def)

text \<open>
  Claim C3 as it was stated lets the two tables share no country as soon as there are
  more than ten countries. With eleven countries each table holds ten of them, and
  country B is in both.
\<close>

theorem top_bottom_overlap:
  "10 < card (country ` set eleven_countries) \<and>
   ''B'' \<in> set (map fst (top10 eleven_countries)) \<inter> set (map fst (bottom10 eleven_countries))"
proof -
  have "card (country ` set eleven_countries) = 11"
    using groupby_mean_length[of country cost_healthy_diet_ppp_usd eleven_countries]
    by (simp add: country_avg_cost_def[symmetric] eleven_country_avg)
  moreover have "''B'' \<in> set (map fst (top10 eleven_countries))"
    by (simp add: top10_def head_def sort_values_def eleven_country_avg)
  moreover have "''B'' \<in> set (map fst (bottom10 eleven_countries))"
    by (simp add: bottom10_def head_def sort_values_def eleven_country_avg)
  ultimately show ?thesis by simp
qed

text \<open>
  Without the condition on the means twenty countries are not enough: when all twenty
  have one mean, both orderings leave the table as it is and the two tables are equal.
\<close>

lemma twenty_equal_avg:
  "country_avg_cost twenty_equal =
     [(''A'', 4), (''B'', 4), (''C'', 4), (''D'', 4), (''E'', 4), (''F'', 4), (''G'', 4),
      (''H'', 4), (''I'', 4), (''J'', 4), (''K'', 4), (''L'', 4), (''M'', 4), (''N'', 4),
      (''O'', 4), (''P'', 4), (''Q'', 4), (''R'', 4), (''S'', 4), (''T'', 4)]"
  by (simp add: country_avg_cost_def groupby_mean_def average_def twenty_equal_def
        twenty_countries_def priced_def)

lemma top_bottom_equal_means:
  "top10 twenty_equal = bottom10 twenty_equal"
  by (simp add: top10_def bottom10_def head_def sort_values_def twenty_equal_avg)

subsection \<open>The CSV download read back\<close>

lemma special_chars:
  "comma \<noteq> dquote" "comma \<noteq> line_feed" "dquote \<noteq> line_feed" "dquote \<noteq> comma"
  "line_feed \<noteq> comma" "line_feed \<noteq> dquote"
  "\<not> newline comma" "\<not> newline dquote" "newline line_feed"
  by (simp_all add: comma_def dquote_def line_feed_def carriage_return_def newline_def)

lemma plain_char: "\<not> special c \<Longrightarrow> \<not> newline c \<and> c \<noteq> comma \<and> c \<noteq> dquote"
  by (auto simp add: special_def newline_def)

lemma run_unquoted:
  "\<not> list_ex special s \<Longrightarrow>
   run s (Unquoted cur, flds, rows) = (Unquoted (cur @ s), flds, rows)"
proof (induction s arbitrary: cur)
  case Nil
  show ?case by simp
next
  case (Cons c s)
  then have c: "\<not> special c" and s: "\<not> list_ex special s" by simp_all
  show ?case using plain_char[OF c] Cons.IH[OF s, of "cur @ [c]"] by simp
qed

lemma run_quoted:
  "run (escape_quotes s) (Quoted cur, flds, rows) = (Quoted (cur @ s), flds, rows)"
proof (induction s arbitrary: cur)
  case Nil
  show ?case by (simp add: escape_quotes_def)
next
  case (Cons c s)
  have split: "escape_quotes (c # s) = (if c = dquote then [dquote, dquote] else [c]) @ escape_quotes s"
    by (simp add: escape_quotes_def)
  show ?case
  proof (cases "c = dquote")
    case True
    then show ?thesis using Cons.IH[of "cur @ [dquote]"] unfolding split by simp
  next
    case False
    then show ?thesis using Cons.IH[of "cur @ [c]"] unfolding split by simp
  qed
qed

lemma end_field_delim:
  "end_field cur flds rows comma = (Field_start, flds @ [cur], rows)"
  "end_field cur flds rows line_feed = (Line_start, [], rows @ [flds @ [cur]])"
  by (simp_all add: end_field_def special_chars)

lemma run_quoted_field:
  assumes m: "m = Line_start \<or> m = Field_start" and d: "d = comma \<or> d = line_feed"
  shows "run (dquote # escape_quotes f @ [dquote, d]) (m, flds, rows) = end_field f flds rows d"
proof -
  have open_q: "tokenize (m, flds, rows) dquote = (Quoted [], flds, rows)"
    using m by (auto simp add: special_chars)
  have close_q: "run [dquote, d] (Quoted f, flds, rows) = end_field f flds rows d"
    using d by (auto simp add: special_chars)
  have "run (dquote # escape_quotes f @ [dquote, d]) (m, flds, rows)
          = run [dquote, d] (run (escape_quotes f) (tokenize (m, flds, rows) dquote))"
    by simp
  also have "\<dots> = run [dquote, d] (Quoted f, flds, rows)"
    using run_quoted[of f "[]" flds rows] by (simp only: open_q append_Nil)
  finally show ?thesis by (simp only: close_q)
qed

lemma run_plain_field:
  assumes m: "m = Line_start \<or> m = Field_start" and d: "d = comma \<or> d = line_feed"
    and f: "\<not> list_ex special f" and ne: "f \<noteq> []"
  shows "run (f @ [d]) (m, flds, rows) = end_field f flds rows d"
proof -
  from ne obtain c cs where fc: "f = c # cs" by (cases f) auto
  have c: "\<not> special c" and cs: "\<not> list_ex special cs" using f fc by simp_all
  have first: "tokenize (m, flds, rows) c = (Unquoted [c], flds, rows)"
    using m plain_char[OF c] by auto
  have "run (f @ [d]) (m, flds, rows) = tokenize (run cs (tokenize (m, flds, rows) c)) d"
    by (simp add: fc)
  also have "\<dots> = tokenize (Unquoted (c # cs), flds, rows) d"
    by (simp add: first run_unquoted[OF cs])
  also have "\<dots> = end_field f flds rows d"
    using d by (auto simp add: special_chars fc)
  finally show ?thesis .
qed

lemma run_empty_field:
  assumes "(m = Line_start \<and> d = comma) \<or> (m = Field_start \<and> (d = comma \<or> d = line_feed))"
  shows "run [d] (m, flds, rows) = end_field [] flds rows d"
  using assms by (auto simp add: special_chars)

lemma run_write_field:
  assumes m: "m = Line_start \<or> m = Field_start" and d: "d = comma \<or> d = line_feed"
    and ok: "\<not> (m = Line_start \<and> f = [] \<and> d = line_feed)"
  shows "run (write_field f @ [d]) (m, flds, rows) = end_field f flds rows d"
proof (cases "list_ex special f")
  case True
  then show ?thesis using run_quoted_field[OF m d, of f flds rows] by (simp add: write_field_def)
next
  case False
  show ?thesis
  proof (cases "f = []")
    case True
    have "(m = Line_start \<and> d = comma) \<or> (m = Field_start \<and> (d = comma \<or> d = line_feed))"
      using m d ok True by auto
    from run_empty_field[OF this, of flds rows] show ?thesis
      using True by (simp add: write_field_def)
  next
    case ne: False
    show ?thesis using run_plain_field[OF m d False ne, of flds rows] False
      by (simp add: write_field_def)
  qed
qed

lemma run_fields_after_comma:
  "fs \<noteq> [] \<Longrightarrow>
   run (join_fields (map write_field fs) @ [line_feed]) (Field_start, flds, rows)
     = (Line_start, [], rows @ [flds @ fs])"
proof (induction fs arbitrary: flds)
  case Nil
  then show ?case by simp
next
  case (Cons f fs)
  show ?case
  proof (cases fs)
    case Nil
    have "run (write_field f @ [line_feed]) (Field_start, flds, rows) = end_field f flds rows line_feed"
      by (rule run_write_field) simp_all
    then show ?thesis using Nil by (simp add: end_field_delim)
  next
    case (Cons g gs)
    have step: "run (write_field f @ [comma]) (Field_start, flds, rows) = end_field f flds rows comma"
      by (rule run_write_field) (simp_all add: special_chars)
    have rest: "run (join_fields (map write_field fs) @ [line_feed]) (Field_start, flds @ [f], rows)
                  = (Line_start, [], rows @ [(flds @ [f]) @ fs])"
      by (rule Cons.IH) (simp add: Cons)
    let ?rest = "join_fields (map write_field fs) @ [line_feed]"
    have split: "join_fields (map write_field (f # fs)) @ [line_feed]
                   = (write_field f @ [comma]) @ ?rest"
      using Cons by simp
    have "run ((write_field f @ [comma]) @ ?rest) (Field_start, flds, rows)
            = run ?rest (run (write_field f @ [comma]) (Field_start, flds, rows))"
      by (simp only: fold_append comp_apply)
    also have "\<dots> = run ?rest (Field_start, flds @ [f], rows)"
      by (simp only: step end_field_delim)
    also have "\<dots> = (Line_start, [], rows @ [(flds @ [f]) @ fs])"
      by (rule rest)
    finally show ?thesis by (simp only: split) simp
  qed
qed

lemma run_write_row:
  assumes "fs \<noteq> []"
  shows "run (write_row fs) (Line_start, [], rows) = (Line_start, [], rows @ [fs])"
proof (cases "fs = [[]]")
  case True
  then show ?thesis by (simp add: write_row_def special_chars end_field_delim)
next
  case False
  from assms obtain f gs where fs: "fs = f # gs" by (cases fs) auto
  show ?thesis
  proof (cases gs)
    case Nil
    then have "f \<noteq> []" using False fs by simp
    then have "run (write_field f @ [line_feed]) (Line_start, [], rows) = end_field f [] rows line_feed"
      by (intro run_write_field) simp_all
    then show ?thesis using False fs Nil by (simp add: write_row_def end_field_delim)
  next
    case (Cons g hs)
    have step: "run (write_field f @ [comma]) (Line_start, [], rows) = end_field f [] rows comma"
      by (rule run_write_field) (simp_all add: special_chars)
    have rest: "run (join_fields (map write_field gs) @ [line_feed]) (Field_start, [f], rows)
                  = (Line_start, [], rows @ [[f] @ gs])"
      by (rule run_fields_after_comma) (simp add: Cons)
    let ?rest = "join_fields (map write_field gs) @ [line_feed]"
    have split: "write_row fs = (write_field f @ [comma]) @ ?rest"
      using False fs Cons by (simp add: write_row_def)
    have "run ((write_field f @ [comma]) @ ?rest) (Line_start, [], rows)
            = run ?rest (run (write_field f @ [comma]) (Line_start, [], rows))"
      by (simp only: fold_append comp_apply)
    also have "\<dots> = run ?rest (Field_start, [f], rows)"
      by (simp only: step end_field_delim append_Nil)
    also have "\<dots> = (Line_start, [], rows @ [[f] @ gs])"
      by (rule rest)
    finally show ?thesis by (simp only: split) (simp add: fs)
  qed
qed

lemma run_write_rows:
  "[] \<notin> set table \<Longrightarrow>
   run (concat (map write_row table)) (Line_start, [], rows) = (Line_start, [], rows @ table)"
proof (induction table arbitrary: rows)
  case Nil
  show ?case by simp
next
  case (Cons r table)
  then have r: "r \<noteq> []" and t: "[] \<notin> set table" by auto
  show ?case
    using run_write_row[OF r, of rows] Cons.IH[OF t, of "rows @ [r]"] by simp
qed

lemma read_back_table:
  assumes "[] \<notin> set table"
  shows "read_csv_cells (concat (map write_row table)) = Some table"
  using run_write_rows[OF assms, of "[]"] by (simp add: read_csv_cells_def)

text \<open>
  Claim C6. Reading the bytes of the download back gives the header line followed by
  one line per row of the filtered table, in table order, each with the six cell texts
  of its row (numbers as the writer prints them); the download is named
  filtered_healthy_diet_data.csv and has the type text/csv.
\<close>

theorem download_round_trip:
  "read_csv_cells (data (download int_repr float_repr filtered_df))
     = Some (header # map (row_cells int_repr float_repr) filtered_df) \<and>
   file_name (download int_repr float_repr filtered_df) = ''filtered_healthy_diet_data.csv'' \<and>
   mime (download int_repr float_repr filtered_df) = ''text/csv''"
proof -
  let ?table = "header # map (row_cells int_repr float_repr) filtered_df"
  have "[] \<notin> set ?table" by (auto simp add: header_def row_cells_def)
  from read_back_table[OF this]
  have "read_csv_cells (to_csv int_repr float_repr filtered_df) = Some ?table"
    by (simp add: to_csv_def comp_def)
  then show ?thesis by (simp add: download_def csv_data_def)
qed


end
